theory Spec2Isabelle
  imports Main
begin

section \<open>Data model of \<open>controllers/contactController.js\<close>\<close>

text \<open>
  The controller works on three Sequelize models.  Their declarations live in
  \<open>models/associations\<close>; the fields below are the ones the controller reads and writes.
  A \<open>Contact\<close> row carries an \<open>id\<close> assigned by the store when the row is created, the two
  user identifiers and a status, which the controller only ever compares with and sets to
  \<open>"pending"\<close>, \<open>"accepted"\<close> and \<open>"blocked"\<close>.
  Nullable columns are options; \<open>None\<close> is JavaScript's \<open>null\<close>.
\<close>

datatype contactStatus = Pending | Accepted | Blocked

record user =
  user_id :: int
  name :: "string option"
  email :: "string option"
  img :: "string option"
  isOnline :: "bool option"
  userStatus :: "string option"

record contact =
  contact_id :: int
  requesterId :: int
  addresseeId :: int
  status :: contactStatus

text \<open>
  The store: the \<open>User\<close> table, the \<open>Contact\<close> table in row order, and the identifier the
  next created \<open>Contact\<close> row receives (an auto-incremented primary key).
\<close>

record store =
  users :: "user list"
  contacts :: "contact list"
  nextContactId :: int

text \<open>\<open>res.status(c).json({message, contact | request})\<close>.\<close>

record response =
  httpStatus :: nat
  message :: string
  contactBody :: "contact option"

definition reply :: "nat \<Rightarrow> string \<Rightarrow> response" where
  "reply c m = \<lparr>httpStatus = c, message = m, contactBody = None\<rparr>"

definition replyWith :: "nat \<Rightarrow> string \<Rightarrow> contact \<Rightarrow> response" where
  "replyWith c m r = \<lparr>httpStatus = c, message = m, contactBody = Some r\<rparr>"

subsection \<open>Socket events\<close>

text \<open>
  \<open>io.to(room).emit(eventName, payload)\<close> appends one event to the log of the call.
  The payloads of the controller:
  \<^item> \<open>{...sender.toJSON(), Contact: {id}}\<close>;
  \<^item> \<open>{message, newFriend: {...user.toJSON(), type: "individual", unreadCount: 0,
     lastMessage: null, messages: []}}\<close> (the four constant fields are left out);
  \<^item> \<open>{requestId}\<close>, \<open>{friendId}\<close>, \<open>{byUser}\<close>.
\<close>

datatype payload =
    SenderWithContact user int
  | NewFriend string user
  | RequestIdOnly int
  | FriendIdOnly int
  | ByUser int

record event =
  room :: string
  eventName :: string
  payload :: payload

text \<open>Template literals print an integer in decimal, with a minus sign when negative.\<close>

definition digitChar :: "nat \<Rightarrow> char" where
  "digitChar d = char_of (48 + d)"

fun showNat :: "nat \<Rightarrow> string" where
  "showNat n = (if n < 10 then [digitChar n] else showNat (n div 10) @ [digitChar (n mod 10)])"

declare showNat.simps [simp del]

definition showInt :: "int \<Rightarrow> string" where
  "showInt i = (if i < 0 then CHR ''-'' # showNat (nat (- i)) else showNat (nat i))"

text \<open>\<open>`user_${id}`\<close>\<close>

definition userRoom :: "int \<Rightarrow> string" where
  "userRoom i = ''user_'' @ showInt i"

text \<open>\<open>`You are now friends with ${user.name}`\<close>; a null name prints as \<open>null\<close>.\<close>

definition friendsWith :: "string option \<Rightarrow> string" where
  "friendsWith n = ''You are now friends with '' @ (case n of None \<Rightarrow> ''null'' | Some s \<Rightarrow> s)"

subsection \<open>Store queries\<close>

definition User_findByPk :: "store \<Rightarrow> int \<Rightarrow> user option" where
  "User_findByPk st i = find (\<lambda>u. user_id u = i) (users st)"

text \<open>
  \<open>attributes: ["id", "name", "img", "email", "status"]\<close>: the projection that leaves
  \<open>isOnline\<close> out.
\<close>

definition withoutPresence :: "user \<Rightarrow> user" where
  "withoutPresence u = u\<lparr>isOnline := None\<rparr>"

definition Contact_findByPk :: "store \<Rightarrow> int \<Rightarrow> contact option" where
  "Contact_findByPk st i = find (\<lambda>c. contact_id c = i) (contacts st)"

definition Contact_findOne :: "store \<Rightarrow> (contact \<Rightarrow> bool) \<Rightarrow> contact option" where
  "Contact_findOne st wh = find wh (contacts st)"

text \<open>
  \<open>[Op.or]: [{requesterId: a, addresseeId: b}, {requesterId: b, addresseeId: a}]\<close>
\<close>

definition eitherDirection :: "int \<Rightarrow> int \<Rightarrow> contact \<Rightarrow> bool" where
  "eitherDirection a b c \<longleftrightarrow>
     (requesterId c = a \<and> addresseeId c = b) \<or> (requesterId c = b \<and> addresseeId c = a)"

text \<open>\<open>Contact.create\<close>: the new row takes the next identifier and is appended.\<close>

definition Contact_create :: "store \<Rightarrow> int \<Rightarrow> int \<Rightarrow> contactStatus \<Rightarrow> contact \<times> store" where
  "Contact_create st r a s =
     (let c = \<lparr>contact_id = nextContactId st, requesterId = r, addresseeId = a, status = s\<rparr>
      in (c, st\<lparr>contacts := contacts st @ [c], nextContactId := nextContactId st + 1\<rparr>))"

text \<open>\<open>instance.save()\<close>: \<open>UPDATE ... WHERE id = instance.id\<close>.\<close>

definition Contact_save :: "store \<Rightarrow> contact \<Rightarrow> store" where
  "Contact_save st c =
     st\<lparr>contacts := map (\<lambda>r. if contact_id r = contact_id c then c else r) (contacts st)\<rparr>"

text \<open>\<open>instance.destroy()\<close>: \<open>DELETE ... WHERE id = instance.id\<close>.\<close>

definition Contact_destroy :: "store \<Rightarrow> contact \<Rightarrow> store" where
  "Contact_destroy st c =
     st\<lparr>contacts := filter (\<lambda>r. contact_id r \<noteq> contact_id c) (contacts st)\<rparr>"

section \<open>The mutating handlers\<close>

text \<open>
  Each handler takes the store, \<open>req.user.id\<close> and the route parameter as \<open>parseInt\<close> returns
  it, and returns the response, the store after the call and the events emitted, in order.
  A \<open>TypeError\<close> raised inside the handler's \<open>try\<close> block (reading \<open>.toJSON\<close> or \<open>.name\<close>
  of a user that \<open>User.findByPk\<close> did not find) reaches its \<open>catch\<close>, which answers 500; what
  was written and emitted before stays.

  Assumed of the environment: the route parameter is numeric (\<open>parseInt\<close> does not return
  \<open>NaN\<close>), the queries of these handlers resolve (a rejected query would answer 500 from the
  same \<open>catch\<close>), and \<open>req.app.get("socketio")\<close> is the socket server, whose \<open>emit\<close> does not
  throw.
\<close>

type_synonym outcome = "response \<times> store \<times> event list"

definition sendFriendRequest :: "store \<Rightarrow> int \<Rightarrow> int \<Rightarrow> outcome" where
  "sendFriendRequest st reqUserId paramUserId =
     (if reqUserId = paramUserId
      then (reply 400 ''You cannot send a friend request to yourself'', st, [])
      else case User_findByPk st paramUserId of
        None \<Rightarrow> (reply 400 ''The user you are trying to add does not exist'', st, [])
      | Some addressee \<Rightarrow>
          (case Contact_findOne st (eitherDirection reqUserId paramUserId) of
             Some existingContact \<Rightarrow>
               if status existingContact = Accepted
               then (reply 409 ''You are already friends with this user'', st, [])
               else (reply 409 ''A friend request already exists'', st, [])
           | None \<Rightarrow>
               (case Contact_create st reqUserId paramUserId Pending of
                  (newRequest, st') \<Rightarrow>
                    (case User_findByPk st' reqUserId of
                       None \<Rightarrow> (reply 500 ''An internal server error occurred.'', st', [])
                     | Some sender \<Rightarrow>
                         (replyWith 201 ''Friend request sent successfully.'' newRequest, st',
                          [\<lparr>room = userRoom paramUserId, eventName = ''newFriendRequest'',
                            payload = SenderWithContact (withoutPresence sender)
                                        (contact_id newRequest)\<rparr>])))))"

text \<open>
  \<open>action\<close> is \<open>req.body.action\<close>, \<open>req.body\<close> being the parsed body object: \<open>Some s\<close> for a
  string, \<open>None\<close> for anything that is not a string (\<open>undefined\<close>, \<open>null\<close>, a number, ...),
  which \<open>Array.includes\<close> never finds.
\<close>

definition updateFriendRequest :: "store \<Rightarrow> int \<Rightarrow> int \<Rightarrow> string option \<Rightarrow> outcome" where
  "updateFriendRequest st currentUserId requestId action =
     (if action \<notin> set [Some ''accept'', Some ''decline'']
      then (reply 400 ''Invalid action. Must be 'accept' or 'decline'.'', st, [])
      else case Contact_findByPk st requestId of
        None \<Rightarrow> (reply 404 ''Friend request not found.'', st, [])
      | Some request \<Rightarrow>
          if addresseeId request \<noteq> currentUserId
          then (reply 403 ''You are not authorized to respond to this request.'', st, [])
          else if status request \<noteq> Pending
          then (reply 409 ''This request has already been responded to.'', st, [])
          else if action = Some ''accept''
          then
            (let request' = request\<lparr>status := Accepted\<rparr>;
                 st' = Contact_save st request'
             in case User_findByPk st' currentUserId of
                  None \<Rightarrow> (reply 500 ''An internal server error occurred.'', st', [])
                | Some acceptor \<Rightarrow>
                    (let e1 = \<lparr>room = userRoom (requesterId request'),
                               eventName = ''friendRequestAccepted'',
                               payload = NewFriend (friendsWith (name acceptor)) acceptor\<rparr>
                     in case User_findByPk st' (requesterId request') of
                          None \<Rightarrow> (reply 500 ''An internal server error occurred.'', st', [e1])
                        | Some sender \<Rightarrow>
                            (replyWith 200 ''Friend request accepted.'' request', st',
                             [e1,
                              \<lparr>room = userRoom currentUserId, eventName = ''newFriendAdded'',
                               payload = NewFriend (friendsWith (name sender)) sender\<rparr>])))
          else
            (reply 200 ''Friend request declined.'', Contact_destroy st request,
             [\<lparr>room = userRoom (requesterId request), eventName = ''friendRequestDeclined'',
               payload = RequestIdOnly requestId\<rparr>]))"

definition removeFriend :: "store \<Rightarrow> int \<Rightarrow> int \<Rightarrow> outcome" where
  "removeFriend st currentUserId friendId =
     (case Contact_findOne st
             (\<lambda>c. status c = Accepted \<and> eitherDirection currentUserId friendId c) of
        None \<Rightarrow> (reply 404 ''You are not friends with this user.'', st, [])
      | Some friendship \<Rightarrow>
          (reply 200 ''Friend removed successfully.'', Contact_destroy st friendship,
           [\<lparr>room = userRoom friendId, eventName = ''friendRemoved'',
             payload = FriendIdOnly currentUserId\<rparr>]))"

definition blockUser :: "store \<Rightarrow> int \<Rightarrow> int \<Rightarrow> outcome" where
  "blockUser st reqUserId paramUserId =
     (if reqUserId = paramUserId
      then (reply 400 ''You cannot block yourself.'', st, [])
      else case User_findByPk st paramUserId of
        None \<Rightarrow> (reply 404 ''The user you are trying to block does not exist.'', st, [])
      | Some addressee \<Rightarrow>
          (case Contact_findOne st (eitherDirection reqUserId paramUserId) of
             Some existingContact \<Rightarrow>
               (let existingContact' =
                      existingContact\<lparr>requesterId := reqUserId, addresseeId := paramUserId,
                                      status := Blocked\<rparr>
                in (replyWith 200 ''User blocked successfully.'' existingContact',
                    Contact_save st existingContact', []))
           | None \<Rightarrow>
               (case Contact_create st reqUserId paramUserId Blocked of
                  (newBlockedContact, st') \<Rightarrow>
                    (replyWith 201 ''User blocked successfully.'' newBlockedContact, st',
                     [\<lparr>room = userRoom paramUserId, eventName = ''youWereBlocked'',
                       payload = ByUser reqUserId\<rparr>]))))"

definition cancelRequest :: "store \<Rightarrow> int \<Rightarrow> int \<Rightarrow> outcome" where
  "cancelRequest st reqUserId requestId =
     (case Contact_findOne st
             (\<lambda>c. contact_id c = requestId \<and> requesterId c = reqUserId \<and> status c = Pending) of
        None \<Rightarrow>
          (reply 404 ''Request not found or you are not authorized to cancel it.'', st, [])
      | Some request \<Rightarrow>
          (reply 200 ''Friend request cancelled.'', Contact_destroy st request,
           [\<lparr>room = userRoom (addresseeId request), eventName = ''friendRequestCancelled'',
             payload = RequestIdOnly requestId\<rparr>]))"

definition unblockUser :: "store \<Rightarrow> int \<Rightarrow> int \<Rightarrow> outcome" where
  "unblockUser st currentUserId blockedUserId =
     (case Contact_findOne st
             (\<lambda>c. requesterId c = currentUserId \<and> addresseeId c = blockedUserId
                   \<and> status c = Blocked) of
        None \<Rightarrow> (reply 401 ''Blocked relationship not found.'', st, [])
      | Some contact \<Rightarrow>
          (reply 200 ''User unblocked successfully.'', Contact_destroy st contact,
           [\<lparr>room = userRoom blockedUserId, eventName = ''youWereUnblocked'',
             payload = ByUser currentUserId\<rparr>]))"

subsection \<open>Sequences of operations\<close>

text \<open>
  One constructor for each mutating route; the first argument is the authenticated caller,
  \<open>req.user.id\<close>.
\<close>

datatype operation =
    RequestConnection int int
  | RespondToRequest int int "string option"
  | CancelRequest int int
  | RemoveConnection int int
  | BlockUser int int
  | UnblockUser int int

fun perform :: "store \<Rightarrow> operation \<Rightarrow> outcome" where
  "perform st (RequestConnection actor target) = sendFriendRequest st actor target"
| "perform st (RespondToRequest actor requestId action) =
     updateFriendRequest st actor requestId action"
| "perform st (CancelRequest actor requestId) = cancelRequest st actor requestId"
| "perform st (RemoveConnection actor other) = removeFriend st actor other"
| "perform st (BlockUser actor target) = blockUser st actor target"
| "perform st (UnblockUser actor target) = unblockUser st actor target"

definition storeAfter :: "store \<Rightarrow> operation \<Rightarrow> store" where
  "storeAfter st op = fst (snd (perform st op))"

definition run :: "store \<Rightarrow> operation list \<Rightarrow> store" where
  "run st ops = foldl storeAfter st ops"

subsection \<open>Rows of a pair, primary keys\<close>

definition pairRows :: "int \<Rightarrow> int \<Rightarrow> contact list \<Rightarrow> contact list" where
  "pairRows u v cs = filter (eitherDirection u v) cs"

text \<open>
  The primary key of the \<open>Contact\<close> table: identifiers are pairwise distinct and below the
  next identifier to be assigned.
\<close>

definition primaryKey :: "store \<Rightarrow> bool" where
  "primaryKey st \<longleftrightarrow>
     distinct (map contact_id (contacts st))
     \<and> list_all (\<lambda>c. contact_id c < nextContactId st) (contacts st)"

section \<open>The friends aggregation\<close>

text \<open>
  The result of an awaited query: the promise resolves with a value or rejects.
\<close>

datatype 'a settled = Rejected | Resolved 'a

text \<open>
  A \<open>Contact\<close> row loaded with \<open>include: [Requester, Addressee]\<close>; an included user is
  \<open>null\<close> when no \<open>User\<close> row has that identifier.
\<close>

record joinedContact =
  row :: contact
  Requester :: "user option"
  Addressee :: "user option"

record unreadCountRow =
  uc_userId :: int
  chatType :: string
  chatId :: int
  count :: int

text \<open>
  What \<open>getFriends\<close> reads besides the \<open>User\<close> and \<open>Contact\<close> tables: the \<open>UnreadCount\<close>
  table, whether each of the two \<open>findAll\<close> queries rejects, the outcome of
  \<open>Message.findOne\<close> for the caller and a friend (the newest message between the two, or
  \<open>null\<close>, or a rejection), and \<open>String.prototype.toUpperCase\<close> on a one-character string.
  The message type is a parameter.
\<close>

record 'm readSide =
  unreadCountTable :: "unreadCountRow list"
  Contact_findAll_rejects :: bool
  UnreadCount_findAll_rejects :: bool
  Message_findOne :: "int \<Rightarrow> int \<Rightarrow> 'm option settled"
  toUpperCase :: "char \<Rightarrow> string"

record 'm friendEntry =
  friend :: user
  unreadCount :: int
  messages :: "'m list"
  lastMessage :: "'m option"

text \<open>\<open>res.status(200).json({friends})\<close> or \<open>res.status(c).json({message})\<close>.\<close>

datatype 'm friendsResponse = Friends "'m friendEntry list" | Failure nat string

definition getOtherUser :: "joinedContact \<Rightarrow> int \<Rightarrow> user option" where
  "getOtherUser contact userId =
     (if requesterId (row contact) = userId then Addressee contact else Requester contact)"

text \<open>
  The rows of \<open>Contact.findAll({where: {status: "accepted", [Op.or]: [{requesterId: userId},
  {addresseeId: userId}]}, include: [Requester, Addressee]})\<close>.
\<close>

definition acceptedWithUsers :: "store \<Rightarrow> int \<Rightarrow> joinedContact list" where
  "acceptedWithUsers st userId =
     map (\<lambda>c. \<lparr>row = c, Requester = User_findByPk st (requesterId c),
                 Addressee = User_findByPk st (addresseeId c)\<rparr>)
       (filter (\<lambda>c. status c = Accepted \<and> (requesterId c = userId \<or> addresseeId c = userId))
          (contacts st))"

definition Contact_findAll_accepted :: "'m readSide \<Rightarrow> store \<Rightarrow> int \<Rightarrow> joinedContact list settled"
  where
  "Contact_findAll_accepted env st userId =
     (if Contact_findAll_rejects env then Rejected else Resolved (acceptedWithUsers st userId))"

definition UnreadCount_findAll :: "'m readSide \<Rightarrow> int \<Rightarrow> int list \<Rightarrow> unreadCountRow list settled"
  where
  "UnreadCount_findAll env userId friendIds =
     (if UnreadCount_findAll_rejects env then Rejected
      else Resolved
        (filter (\<lambda>r. uc_userId r = userId \<and> chatType r = ''individual''
                      \<and> chatId r \<in> set friendIds)
           (unreadCountTable env)))"

text \<open>\<open>contacts.map(getOtherUser).filter((friend) => friend != null)\<close>\<close>

definition friendsListOf :: "joinedContact list \<Rightarrow> int \<Rightarrow> user list" where
  "friendsListOf cs userId =
     map the (filter (\<lambda>friend. friend \<noteq> None) (map (\<lambda>contact. getOtherUser contact userId) cs))"

text \<open>
  The body of the \<open>async\<close> callback of step 3: a rejected lookup is caught and becomes
  \<open>lastMessage: null\<close>.
\<close>

definition fetchLastMessage :: "'m readSide \<Rightarrow> int \<Rightarrow> int \<Rightarrow> int \<times> 'm option" where
  "fetchLastMessage env userId friendId =
     (case Message_findOne env userId friendId of
        Resolved found \<Rightarrow> (friendId, found)
      | Rejected \<Rightarrow> (friendId, None))"

text \<open>The two \<open>reduce\<close> calls of step 4; a later item overwrites an earlier one.\<close>

definition countMapOf :: "unreadCountRow list \<Rightarrow> (int \<rightharpoonup> int)" where
  "countMapOf unreadCounts = foldl (\<lambda>m item. m(chatId item \<mapsto> count item)) Map.empty unreadCounts"

definition lastMessageMapOf :: "(int \<times> 'm option) list \<Rightarrow> (int \<rightharpoonup> 'm option)" where
  "lastMessageMapOf lastMessages =
     foldl (\<lambda>m item. m(fst item \<mapsto> snd item)) Map.empty lastMessages"

subsection \<open>Avatar resolution\<close>

text \<open>A string value is truthy when it is neither \<open>null\<close> nor empty.\<close>

definition truthy :: "string option \<Rightarrow> bool" where
  "truthy s \<longleftrightarrow> s \<noteq> None \<and> s \<noteq> Some []"

text \<open>\<open>s.includes(n)\<close>: \<open>n\<close> occurs in \<open>s\<close> as a contiguous substring.\<close>

fun includes_str :: "string \<Rightarrow> string \<Rightarrow> bool" where
  "includes_str [] n = (n = [])"
| "includes_str (c # s) n = (take (length n) (c # s) = n \<or> includes_str s n)"

text \<open>\<open>friend.name ? friend.name[0].toUpperCase() : "U"\<close>\<close>

definition firstLetter :: "(char \<Rightarrow> string) \<Rightarrow> string option \<Rightarrow> string" where
  "firstLetter upper nm =
     (case nm of None \<Rightarrow> ''U'' | Some [] \<Rightarrow> ''U'' | Some (c # cs) \<Rightarrow> upper c)"

definition placeholder :: "string \<Rightarrow> string" where
  "placeholder letter = ''https://placehold.co/50x50/695cfe/ffffff?text='' @ letter"

definition resolveAvatar :: "(char \<Rightarrow> string) \<Rightarrow> string option \<Rightarrow> string option \<Rightarrow> string"
  where
  "resolveAvatar upper userImg nm =
     (if truthy userImg \<and> includes_str (the userImg) ''placehold.co''
         \<and> includes_str (the userImg) ''text=U''
      then placeholder (firstLetter upper nm)
      else if \<not> truthy userImg
      then placeholder (firstLetter upper nm)
      else the userImg)"

text \<open>
  \<open>toUpperCase\<close> on the ASCII letters, for running examples; every theorem below holds for
  any \<open>toUpperCase\<close>.
\<close>

definition asciiUpper :: "char \<Rightarrow> string" where
  "asciiUpper c =
     (if (97::nat) \<le> of_char c \<and> of_char c \<le> (122::nat)
      then [char_of (of_char c - (32::nat))] else [c])"

subsection \<open>\<open>getFriends\<close>\<close>

definition friendWithData ::
  "'m readSide \<Rightarrow> (int \<rightharpoonup> int) \<Rightarrow> (int \<rightharpoonup> 'm option) \<Rightarrow> user \<Rightarrow> 'm friendEntry" where
  "friendWithData env countMap lastMessageMap fr =
     (let lastMessage' = (case lastMessageMap (user_id fr) of None \<Rightarrow> None | Some m \<Rightarrow> m);
          userImg = resolveAvatar (toUpperCase env) (img fr) (name fr)
      in \<lparr>friend = fr\<lparr>img := Some userImg\<rparr>,
          unreadCount = (case countMap (user_id fr) of None \<Rightarrow> 0
                         | Some c \<Rightarrow> if c = 0 then 0 else c),
          messages = (case lastMessage' of None \<Rightarrow> [] | Some m \<Rightarrow> [m]),
          lastMessage = lastMessage'\<rparr>)"

definition getFriends :: "'m readSide \<Rightarrow> store \<Rightarrow> int \<Rightarrow> 'm friendsResponse" where
  "getFriends env st userId =
     (case Contact_findAll_accepted env st userId of
        Rejected \<Rightarrow> Failure 500 ''Failed to fetch friends list.''
      | Resolved cs \<Rightarrow>
          (let friendsList = friendsListOf cs userId;
               friendIds = map user_id friendsList
           in case UnreadCount_findAll env userId friendIds of
                Rejected \<Rightarrow> Failure 500 ''Failed to fetch friends list.''
              | Resolved unreadCounts \<Rightarrow>
                  (let lastMessages = map (fetchLastMessage env userId) friendIds;
                       countMap = countMapOf unreadCounts;
                       lastMessageMap = lastMessageMapOf lastMessages
                   in Friends (map (friendWithData env countMap lastMessageMap) friendsList))))"

section \<open>Predicates and abbreviations used in the proofs\<close>

text \<open>At most one row for every pair of distinct users, in either direction.\<close>

definition pairUnique :: "contact list \<Rightarrow> bool" where
  "pairUnique cs \<longleftrightarrow> (\<forall>u v. u \<noteq> v \<longrightarrow> length (pairRows u v cs) \<le> 1)"

definition storeInv :: "store \<Rightarrow> bool" where
  "storeInv st \<longleftrightarrow> primaryKey st \<and> pairUnique (contacts st)"

text \<open>
  The entry \<open>getFriends\<close> builds for one friend, given the identifiers of all friends: the
  two maps of step 4 are built from the rows and lookups of steps 2 and 3.
\<close>

definition entryOf :: "'m readSide \<Rightarrow> int \<Rightarrow> int list \<Rightarrow> user \<Rightarrow> 'm friendEntry" where
  "entryOf env userId friendIds =
     friendWithData env
       (countMapOf (filter (\<lambda>r. uc_userId r = userId \<and> chatType r = ''individual''
                                 \<and> chatId r \<in> set friendIds) (unreadCountTable env)))
       (lastMessageMapOf (map (fetchLastMessage env userId) friendIds))"

section \<open>Example stores\<close>

definition ann :: user where
  "ann = \<lparr>user_id = 1, name = Some ''ann'', email = Some ''ann@example.org'', img = None,
           isOnline = Some True, userStatus = None\<rparr>"

definition bob :: user where
  "bob = \<lparr>user_id = 2, name = Some ''bob'', email = Some ''bob@example.org'',
           img = Some ''https://placehold.co/50x50/695cfe/ffffff?text=U'',
           isOnline = Some False, userStatus = None\<rparr>"

definition cyd :: user where
  "cyd = \<lparr>user_id = 3, name = Some [], email = None,
           img = Some ''https://cdn.example.org/cyd.png'',
           isOnline = None, userStatus = None\<rparr>"

definition noContacts :: store where
  "noContacts = \<lparr>users = [ann, bob, cyd], contacts = [], nextContactId = 100\<rparr>"

definition pendingRequest :: store where
  "pendingRequest =
     \<lparr>users = [ann, bob, cyd],
      contacts = [\<lparr>contact_id = 100, requesterId = 1, addresseeId = 2, status = Pending\<rparr>],
      nextContactId = 101\<rparr>"

definition twoFriends :: store where
  "twoFriends =
     \<lparr>users = [ann, bob, cyd],
      contacts = [\<lparr>contact_id = 100, requesterId = 1, addresseeId = 2, status = Accepted\<rparr>,
                  \<lparr>contact_id = 101, requesterId = 3, addresseeId = 1, status = Accepted\<rparr>],
      nextContactId = 102\<rparr>"

text \<open>
  A read side over messages that are plain strings: no unread counter is stored for \<open>cyd\<close>, and
  the last-message lookup for \<open>bob\<close> rejects.
\<close>

definition lookupFails :: "string readSide" where
  "lookupFails =
     \<lparr>unreadCountTable = [\<lparr>uc_userId = 1, chatType = ''individual'', chatId = 2, count = 4\<rparr>],
      Contact_findAll_rejects = False,
      UnreadCount_findAll_rejects = False,
      Message_findOne = (\<lambda>userId friendId. if friendId = 2 then Rejected else Resolved (Some ''hi'')),
      toUpperCase = asciiUpper\<rparr>"

definition countersDown :: "string readSide" where
  "countersDown = lookupFails\<lparr>UnreadCount_findAll_rejects := True\<rparr>"

section \<open>Auxiliary facts\<close>

subsection \<open>Substrings\<close>

lemma includes_iff: "includes_str s n \<longleftrightarrow> (\<exists>a b. s = a @ n @ b)"
proof (induction s)
  case Nil
  then show ?case by auto
next
  case (Cons c s)
  show ?case
  proof
    assume "includes_str (c # s) n"
    then consider "take (length n) (c # s) = n" | "includes_str s n" by auto
    then show "\<exists>a b. c # s = a @ n @ b"
    proof cases
      case 1
      then have "c # s = [] @ n @ drop (length n) (c # s)"
        by (metis append_Nil append_take_drop_id)
      then show ?thesis by blast
    next
      case 2
      then obtain a b where "s = a @ n @ b" using Cons.IH by blast
      then have "c # s = (c # a) @ n @ b" by simp
      then show ?thesis by blast
    qed
  next
    assume "\<exists>a b. c # s = a @ n @ b"
    then obtain a b where ab: "c # s = a @ n @ b" by blast
    show "includes_str (c # s) n"
    proof (cases a)
      case Nil
      then have "take (length n) (c # s) = n" using ab by simp
      then show ?thesis by simp
    next
      case (Cons x a')
      then have "s = a' @ n @ b" using ab by simp
      then have "includes_str s n" using Cons.IH by blast
      then show ?thesis by simp
    qed
  qed
qed

subsection \<open>Rows of a pair under create, save and destroy\<close>

lemma eitherDirection_same_pair:
  "eitherDirection u v c \<Longrightarrow> eitherDirection x y c \<Longrightarrow> eitherDirection x y = eitherDirection u v"
  by (auto simp: eitherDirection_def fun_eq_iff)

lemma find_None_pairRows:
  "find (eitherDirection u v) cs = None \<longleftrightarrow> pairRows u v cs = []"
  by (auto simp: pairRows_def find_None_iff filter_empty_conv)

lemma find_Some_pairRows:
  "find (eitherDirection u v) cs = Some c \<Longrightarrow> length (pairRows u v cs) \<le> 1 \<Longrightarrow> pairRows u v cs = [c]"
proof (induction cs)
  case Nil
  then show ?case by simp
next
  case (Cons a cs)
  show ?case
  proof (cases "eitherDirection u v a")
    case True
    then have "a = c" using Cons.prems(1) by simp
    moreover have "filter (eitherDirection u v) cs = []"
      using Cons.prems(2) True by (simp add: pairRows_def)
    ultimately show ?thesis using True by (simp add: pairRows_def)
  next
    case False
    then show ?thesis using Cons by (simp add: pairRows_def)
  qed
qed

lemma find_SomeD: "find P xs = Some x \<Longrightarrow> x \<in> set xs \<and> P x"
  by (auto simp: find_Some_iff)

lemma length_filter_map_same:
  "(\<And>r. r \<in> set xs \<Longrightarrow> P (f r) = P r) \<Longrightarrow> length (filter P (map f xs)) = length (filter P xs)"
  by (induction xs) auto

lemma distinct_id_eq:
  "distinct (map contact_id cs) \<Longrightarrow> c \<in> set cs \<Longrightarrow> r \<in> set cs \<Longrightarrow> contact_id r = contact_id c \<Longrightarrow> r = c"
  by (meson distinct_map inj_onD)

lemma pairRows_save_length:
  assumes "distinct (map contact_id cs)" "c \<in> set cs" "contact_id c' = contact_id c"
    and "eitherDirection x y c' = eitherDirection x y c"
  shows "length (pairRows x y (map (\<lambda>r. if contact_id r = contact_id c' then c' else r) cs))
         = length (pairRows x y cs)"
  unfolding pairRows_def
proof (rule length_filter_map_same)
  fix r assume "r \<in> set cs"
  then show "eitherDirection x y (if contact_id r = contact_id c' then c' else r) = eitherDirection x y r"
    using assms distinct_id_eq[of cs c r] by auto
qed

lemma pairRows_destroy_length:
  "length (pairRows x y (filter Q cs)) \<le> length (pairRows x y cs)"
  unfolding pairRows_def
  by (induction cs) auto

lemma pairRows_create_length:
  assumes "pairRows u v cs = []" "pairUnique cs" "x \<noteq> y"
    and c: "requesterId c = u" "addresseeId c = v"
  shows "length (pairRows x y (cs @ [c])) \<le> 1"
proof (cases "eitherDirection x y c")
  case True
  moreover have "eitherDirection u v c" using c by (simp add: eitherDirection_def)
  ultimately have "eitherDirection x y = eitherDirection u v"
    by (rule eitherDirection_same_pair[rotated])
  then show ?thesis using assms(1) True by (simp add: pairRows_def)
next
  case False
  then show ?thesis using assms(2,3) by (simp add: pairRows_def pairUnique_def)
qed

lemma save_keeps_ids:
  "map contact_id (map (\<lambda>r. if contact_id r = contact_id c then c else r) cs) = map contact_id cs"
  by (induction cs) auto

lemma primaryKey_save:
  "primaryKey st \<Longrightarrow> primaryKey (Contact_save st c)"
  using save_keeps_ids[of c "contacts st"]
  by (auto simp: primaryKey_def Contact_save_def list_all_iff simp del: map_map)

lemma primaryKey_destroy:
  "primaryKey st \<Longrightarrow> primaryKey (Contact_destroy st c)"
  by (auto simp: primaryKey_def Contact_destroy_def list_all_iff distinct_map_filter)

lemma primaryKey_create:
  "primaryKey st \<Longrightarrow> primaryKey (snd (Contact_create st r a s))"
  by (fastforce simp: primaryKey_def Contact_create_def list_all_iff Let_def)

lemma filter_replace_single:
  "filter P cs = [c] \<Longrightarrow> P c' \<Longrightarrow> filter P (map (\<lambda>r. if r = c then c' else r) cs) = [c']"
proof (induction cs)
  case Nil
  then show ?case by simp
next
  case (Cons a cs)
  show ?case
  proof (cases "P a")
    case True
    then have ac: "a = c" and rest: "filter P cs = []" using Cons.prems(1) by auto
    have "\<not> P r" if "r \<in> set cs" for r using rest that by (simp add: filter_empty_conv)
    moreover have "P c" using True ac by simp
    ultimately have "c \<notin> set cs" by blast
    then have "map (\<lambda>r. if r = c then c' else r) cs = cs" by (induction cs) auto
    then show ?thesis using ac rest Cons.prems(2) by simp
  next
    case False
    moreover have "P c"
    proof -
      have "c \<in> set (filter P (a # cs))" using Cons.prems(1) by simp
      then show ?thesis unfolding set_filter by blast
    qed
    ultimately have "a \<noteq> c" by blast
    then show ?thesis using False Cons by simp
  qed
qed

lemma save_as_replace:
  assumes "distinct (map contact_id cs)" "c \<in> set cs" "contact_id c' = contact_id c"
  shows "map (\<lambda>r. if contact_id r = contact_id c' then c' else r) cs
         = map (\<lambda>r. if r = c then c' else r) cs"
  using assms distinct_id_eq[OF assms(1,2)] by (intro map_cong) auto

lemma pairRows_save_single:
  assumes "distinct (map contact_id (contacts st))" "pairRows u v (contacts st) = [c]"
    and "contact_id c' = contact_id c" "eitherDirection u v c'"
  shows "pairRows u v (contacts (Contact_save st c')) = [c']"
proof -
  have "c \<in> set (pairRows u v (contacts st))" using assms(2) by simp
  then have mem: "c \<in> set (contacts st)" by (simp add: pairRows_def)
  have "contacts (Contact_save st c') = map (\<lambda>r. if r = c then c' else r) (contacts st)"
    by (simp add: Contact_save_def save_as_replace[OF assms(1) mem assms(3)])
  then show ?thesis
    using filter_replace_single[of "eitherDirection u v" "contacts st" c c'] assms(2,4)
    by (simp add: pairRows_def)
qed

lemma pairRows_destroy_single:
  assumes "pairRows u v (contacts st) = [c]"
  shows "pairRows u v (contacts (Contact_destroy st c)) = []"
proof -
  have "\<And>r. r \<in> set (contacts st) \<Longrightarrow> eitherDirection u v r \<Longrightarrow> r = c"
  proof -
    fix r assume "r \<in> set (contacts st)" "eitherDirection u v r"
    then have "r \<in> set (pairRows u v (contacts st))" by (simp add: pairRows_def)
    then show "r = c" using assms by simp
  qed
  then show ?thesis
    by (auto simp: Contact_destroy_def pairRows_def filter_empty_conv)
qed

lemma users_save [simp]: "User_findByPk (Contact_save st c) i = User_findByPk st i"
  by (simp add: User_findByPk_def Contact_save_def)

subsection \<open>Every handler keeps the primary key and the uniqueness of pairs\<close>

lemma storeInv_create:
  assumes "storeInv st" "Contact_findOne st (eitherDirection u v) = None"
  shows "storeInv (snd (Contact_create st u v s))"
proof -
  have empty: "pairRows u v (contacts st) = []"
    using assms(2) by (simp add: Contact_findOne_def find_None_pairRows)
  have "pairUnique (contacts (snd (Contact_create st u v s)))"
    unfolding pairUnique_def
  proof (intro allI impI)
    fix x y :: int assume "x \<noteq> y"
    then show "length (pairRows x y (contacts (snd (Contact_create st u v s)))) \<le> 1"
      using pairRows_create_length[OF empty, of x y
          "\<lparr>contact_id = nextContactId st, requesterId = u, addresseeId = v, status = s\<rparr>"]
        assms(1)
      by (simp add: Contact_create_def storeInv_def Let_def)
  qed
  then show ?thesis using assms(1) primaryKey_create[of st u v s] by (simp add: storeInv_def)
qed

lemma storeInv_save:
  assumes "storeInv st" "c \<in> set (contacts st)" "contact_id c' = contact_id c"
    and "\<And>x y. eitherDirection x y c' = eitherDirection x y c"
  shows "storeInv (Contact_save st c')"
proof -
  have d: "distinct (map contact_id (contacts st))" using assms(1) by (simp add: storeInv_def primaryKey_def)
  have "pairUnique (contacts (Contact_save st c'))"
    unfolding pairUnique_def
  proof (intro allI impI)
    fix x y :: int assume "x \<noteq> y"
    then have "length (pairRows x y (contacts st)) \<le> 1"
      using assms(1) by (simp add: storeInv_def pairUnique_def)
    then show "length (pairRows x y (contacts (Contact_save st c'))) \<le> 1"
      using pairRows_save_length[OF d assms(2,3) assms(4)] by (simp add: Contact_save_def)
  qed
  then show ?thesis using assms(1) primaryKey_save[of st c'] by (simp add: storeInv_def)
qed

lemma storeInv_destroy:
  assumes "storeInv st"
  shows "storeInv (Contact_destroy st c)"
proof -
  have "pairUnique (contacts (Contact_destroy st c))"
    unfolding pairUnique_def
  proof (intro allI impI)
    fix x y :: int assume "x \<noteq> y"
    then have "length (pairRows x y (contacts st)) \<le> 1"
      using assms(1) by (simp add: storeInv_def pairUnique_def)
    then show "length (pairRows x y (contacts (Contact_destroy st c))) \<le> 1"
      using pairRows_destroy_length[of x y "\<lambda>r. contact_id r \<noteq> contact_id c" "contacts st"]
      by (simp add: Contact_destroy_def)
  qed
  then show ?thesis using assms(1) primaryKey_destroy[of st c] by (simp add: storeInv_def)
qed

lemma storeInv_sendFriendRequest:
  "storeInv st \<Longrightarrow> storeInv (fst (snd (sendFriendRequest st u v)))"
  using storeInv_create[of st u v Pending]
  by (auto simp: sendFriendRequest_def split: option.splits prod.splits)

lemma storeInv_updateFriendRequest:
  assumes "storeInv st"
  shows "storeInv (fst (snd (updateFriendRequest st u rid action)))"
proof (cases "Contact_findByPk st rid")
  case None
  then show ?thesis using assms by (simp add: updateFriendRequest_def)
next
  case (Some request)
  then have mem: "request \<in> set (contacts st)"
    by (auto simp: Contact_findByPk_def dest: find_SomeD)
  have "storeInv (Contact_save st (request\<lparr>status := Accepted\<rparr>))"
    by (rule storeInv_save[OF assms mem]) (simp_all add: eitherDirection_def)
  moreover have "storeInv (Contact_destroy st request)"
    by (rule storeInv_destroy[OF assms])
  ultimately show ?thesis using Some assms
    by (auto simp: updateFriendRequest_def Let_def split: option.splits)
qed

lemma storeInv_blockUser:
  assumes "storeInv st"
  shows "storeInv (fst (snd (blockUser st u v)))"
proof (cases "Contact_findOne st (eitherDirection u v)")
  case None
  then show ?thesis
    using assms storeInv_create[of st u v Blocked]
    by (auto simp: blockUser_def split: option.splits prod.splits)
next
  case (Some c)
  then have mem: "c \<in> set (contacts st)" and dir: "eitherDirection u v c"
    by (auto simp: Contact_findOne_def dest: find_SomeD)
  have "storeInv (Contact_save st (c\<lparr>requesterId := u, addresseeId := v, status := Blocked\<rparr>))"
    by (rule storeInv_save[OF assms mem]) (use dir in \<open>auto simp: eitherDirection_def\<close>)
  then show ?thesis using Some assms
    by (auto simp: blockUser_def Let_def split: option.splits)
qed

lemma storeInv_others:
  assumes "storeInv st"
  shows "storeInv (fst (snd (removeFriend st u v)))"
    and "storeInv (fst (snd (cancelRequest st u rid)))"
    and "storeInv (fst (snd (unblockUser st u v)))"
  using assms storeInv_destroy[OF assms]
  by (auto simp: removeFriend_def cancelRequest_def unblockUser_def split: option.splits)

lemma storeInv_storeAfter: "storeInv st \<Longrightarrow> storeInv (storeAfter st op)"
  unfolding storeAfter_def
  by (cases op)
     (simp_all add: storeInv_sendFriendRequest storeInv_updateFriendRequest storeInv_blockUser
        storeInv_others)

lemma storeInv_run: "storeInv st \<Longrightarrow> storeInv (run st ops)"
  unfolding run_def
  by (induction ops arbitrary: st) (simp_all add: storeInv_storeAfter)

subsection \<open>Outcomes of single handlers\<close>

lemma blockUser_rows:
  assumes pk: "primaryKey st"
    and one: "length (pairRows u v (contacts st)) \<le> 1"
    and neq: "u \<noteq> v"
    and ex: "User_findByPk st v \<noteq> None"
  shows "\<exists>resp st' evs r.
           blockUser st u v = (resp, st', evs)
         \<and> users st' = users st
         \<and> pairRows u v (contacts st') = [r]
         \<and> status r = Blocked \<and> requesterId r = u \<and> addresseeId r = v
         \<and> contactBody resp = Some r
         \<and> (if pairRows u v (contacts st) = []
            then httpStatus resp = 201 \<and> contacts st' = contacts st @ [r]
            else httpStatus resp = 200
               \<and> map contact_id (contacts st') = map contact_id (contacts st))"
proof (cases "Contact_findOne st (eitherDirection u v)")
  case None
  then have empty: "pairRows u v (contacts st) = []"
    by (simp add: Contact_findOne_def find_None_pairRows)
  then show ?thesis using None neq ex
    by (auto simp: blockUser_def Contact_create_def replyWith_def pairRows_def
        eitherDirection_def Let_def)
next
  case (Some c)
  then have rows: "pairRows u v (contacts st) = [c]"
    using one by (simp add: Contact_findOne_def find_Some_pairRows)
  let ?c' = "c\<lparr>requesterId := u, addresseeId := v, status := Blocked\<rparr>"
  have d: "distinct (map contact_id (contacts st))" using pk by (simp add: primaryKey_def)
  have "pairRows u v (contacts (Contact_save st ?c')) = [?c']"
    by (rule pairRows_save_single[OF d rows]) (simp_all add: eitherDirection_def)
  moreover have "map contact_id (contacts (Contact_save st ?c')) = map contact_id (contacts st)"
    using save_keeps_ids[of ?c' "contacts st"] by (simp add: Contact_save_def)
  moreover have "users (Contact_save st ?c') = users st" by (simp add: Contact_save_def)
  ultimately show ?thesis using Some neq ex rows
    by (auto simp: blockUser_def replyWith_def Let_def)
qed

lemma unblockUser_single:
  assumes rows: "pairRows u v (contacts st) = [r]"
    and r: "status r = Blocked" "requesterId r = u" "addresseeId r = v"
  shows "unblockUser st u v =
           (reply 200 ''User unblocked successfully.'', Contact_destroy st r,
            [\<lparr>room = userRoom v, eventName = ''youWereUnblocked'', payload = ByUser u\<rparr>])"
proof -
  let ?P = "\<lambda>c. requesterId c = u \<and> addresseeId c = v \<and> status c = Blocked"
  have "r \<in> set (pairRows u v (contacts st))" using rows by simp
  then have mem: "r \<in> set (contacts st)" by (simp add: pairRows_def)
  then have "find ?P (contacts st) \<noteq> None" using r by (auto simp: find_None_iff)
  then obtain c where c: "find ?P (contacts st) = Some c" by blast
  then have "c \<in> set (contacts st)" "?P c" using find_SomeD[OF c] by blast+
  then have "c \<in> set (pairRows u v (contacts st))" by (simp add: pairRows_def eitherDirection_def)
  then have "c = r" using rows by simp
  then show ?thesis using c by (simp add: unblockUser_def Contact_findOne_def)
qed

lemma sendFriendRequest_fresh:
  assumes neq: "u \<noteq> v" and exv: "User_findByPk st v \<noteq> None" and exu: "User_findByPk st u = Some sender"
    and empty: "pairRows u v (contacts st) = []"
  shows "sendFriendRequest st u v =
           (let new = \<lparr>contact_id = nextContactId st, requesterId = u, addresseeId = v,
                        status = Pending\<rparr>
            in (replyWith 201 ''Friend request sent successfully.'' new,
                st\<lparr>contacts := contacts st @ [new], nextContactId := nextContactId st + 1\<rparr>,
                [\<lparr>room = userRoom v, eventName = ''newFriendRequest'',
                  payload = SenderWithContact (withoutPresence sender) (nextContactId st)\<rparr>]))"
proof -
  have "Contact_findOne st (eitherDirection u v) = None"
    using empty by (simp add: Contact_findOne_def find_None_pairRows)
  then show ?thesis using neq exv exu
    by (auto simp: sendFriendRequest_def Contact_create_def Let_def User_findByPk_def)
qed

lemma accept_events:
  assumes "updateFriendRequest st u rid (Some ''accept'') = (resp, st', evs)"
    and "httpStatus resp = 200"
  shows "\<exists>request acceptor sender.
           Contact_findByPk st rid = Some request
         \<and> addresseeId request = u \<and> status request = Pending
         \<and> User_findByPk st u = Some acceptor
         \<and> User_findByPk st (requesterId request) = Some sender
         \<and> st' = Contact_save st (request\<lparr>status := Accepted\<rparr>)
         \<and> evs = [\<lparr>room = userRoom (requesterId request), eventName = ''friendRequestAccepted'',
                    payload = NewFriend (friendsWith (name acceptor)) acceptor\<rparr>,
                   \<lparr>room = userRoom u, eventName = ''newFriendAdded'',
                    payload = NewFriend (friendsWith (name sender)) sender\<rparr>]"
  using assms
  by (auto simp: updateFriendRequest_def reply_def replyWith_def Let_def
      split: option.splits if_splits)

lemma at_most_one_event:
  "length (snd (snd (sendFriendRequest st u v))) \<le> 1"
  "length (snd (snd (removeFriend st u v))) \<le> 1"
  "length (snd (snd (blockUser st u v))) \<le> 1"
  "length (snd (snd (cancelRequest st u rid))) \<le> 1"
  "length (snd (snd (unblockUser st u v))) \<le> 1"
  by (auto simp: sendFriendRequest_def removeFriend_def blockUser_def cancelRequest_def
      unblockUser_def Let_def split: option.splits prod.splits)

lemma respond_events:
  "length (snd (snd (updateFriendRequest st u rid action))) \<le> 2"
  "1 < length (snd (snd (updateFriendRequest st u rid action)))
     \<Longrightarrow> action = Some ''accept'' \<and> httpStatus (fst (updateFriendRequest st u rid action)) = 200"
  by (auto simp: updateFriendRequest_def Let_def reply_def replyWith_def
      split: option.splits if_splits)

lemma many_events:
  assumes "perform st op = (resp, st', evs)" "1 < length evs"
  shows "(\<exists>actor rid. op = RespondToRequest actor rid (Some ''accept'')) \<and> httpStatus resp = 200"
proof (cases op)
  case (RespondToRequest actor rid action)
  then show ?thesis using assms respond_events(2)[of st actor rid action] by simp
next
  case (RequestConnection a b)
  then show ?thesis using assms at_most_one_event(1)[of st a b] by simp
next
  case (CancelRequest a b)
  then show ?thesis using assms at_most_one_event(4)[of st a b] by simp
next
  case (RemoveConnection a b)
  then show ?thesis using assms at_most_one_event(2)[of st a b] by simp
next
  case (BlockUser a b)
  then show ?thesis using assms at_most_one_event(3)[of st a b] by simp
next
  case (UnblockUser a b)
  then show ?thesis using assms at_most_one_event(5)[of st a b] by simp
qed

subsection \<open>The maps and entries of \<open>getFriends\<close>\<close>

lemma foldl_keyed_lookup:
  assumes "\<And>j. fst (f j) = j"
  shows "foldl (\<lambda>m item. m(fst item \<mapsto> snd item)) m0 (map f ks) k
         = (if k \<in> set ks then Some (snd (f k)) else m0 k)"
  using assms by (induction ks arbitrary: m0) auto

lemma lastMessageMap_lookup:
  "k \<in> set friendIds \<Longrightarrow>
   lastMessageMapOf (map (fetchLastMessage env userId) friendIds) k
   = Some (case Message_findOne env userId k of Rejected \<Rightarrow> None | Resolved found \<Rightarrow> found)"
  unfolding lastMessageMapOf_def
  by (subst foldl_keyed_lookup) (auto simp: fetchLastMessage_def split: settled.splits)

lemma foldl_count_absent:
  "k \<notin> chatId ` set rows \<Longrightarrow>
   foldl (\<lambda>m item. m(chatId item \<mapsto> count item)) m0 rows k = m0 k"
  by (induction rows arbitrary: m0) auto

lemma countMap_absent: "k \<notin> chatId ` set rows \<Longrightarrow> countMapOf rows k = None"
  by (simp add: countMapOf_def foldl_count_absent)

lemma getFriends_resolved:
  assumes "\<not> Contact_findAll_rejects env" "\<not> UnreadCount_findAll_rejects env"
  shows "getFriends env st userId =
           Friends (map (entryOf env userId
                           (map user_id (friendsListOf (acceptedWithUsers st userId) userId)))
                      (friendsListOf (acceptedWithUsers st userId) userId))"
  using assms
  by (simp add: getFriends_def Contact_findAll_accepted_def UnreadCount_findAll_def Let_def
      entryOf_def)

lemma getFriends_rejected:
  "Contact_findAll_rejects env \<or> UnreadCount_findAll_rejects env \<Longrightarrow>
   getFriends env st userId = Failure 500 ''Failed to fetch friends list.''"
  by (auto simp: getFriends_def Contact_findAll_accepted_def UnreadCount_findAll_def Let_def)

lemma entryOf_fields:
  assumes "user_id fr \<in> set friendIds"
  shows "user_id (friend (entryOf env userId friendIds fr)) = user_id fr"
    and "img (friend (entryOf env userId friendIds fr))
         = Some (resolveAvatar (toUpperCase env) (img fr) (name fr))"
    and "lastMessage (entryOf env userId friendIds fr)
         = (case Message_findOne env userId (user_id fr) of Rejected \<Rightarrow> None
            | Resolved found \<Rightarrow> found)"
    and "messages (entryOf env userId friendIds fr)
         = (case lastMessage (entryOf env userId friendIds fr) of None \<Rightarrow> [] | Some m \<Rightarrow> [m])"
    and "(\<forall>r \<in> set (unreadCountTable env).
            \<not> (uc_userId r = userId \<and> chatType r = ''individual'' \<and> chatId r = user_id fr))
         \<Longrightarrow> unreadCount (entryOf env userId friendIds fr) = 0"
proof -
  show "user_id (friend (entryOf env userId friendIds fr)) = user_id fr"
    by (simp add: entryOf_def friendWithData_def Let_def)
  show "img (friend (entryOf env userId friendIds fr))
         = Some (resolveAvatar (toUpperCase env) (img fr) (name fr))"
    by (simp add: entryOf_def friendWithData_def Let_def)
  show lm: "lastMessage (entryOf env userId friendIds fr)
         = (case Message_findOne env userId (user_id fr) of Rejected \<Rightarrow> None
            | Resolved found \<Rightarrow> found)"
    using lastMessageMap_lookup[OF assms, of env userId]
    by (simp add: entryOf_def friendWithData_def Let_def)
  show "messages (entryOf env userId friendIds fr)
         = (case lastMessage (entryOf env userId friendIds fr) of None \<Rightarrow> [] | Some m \<Rightarrow> [m])"
    by (simp add: entryOf_def friendWithData_def Let_def)
  assume none: "\<forall>r \<in> set (unreadCountTable env).
            \<not> (uc_userId r = userId \<and> chatType r = ''individual'' \<and> chatId r = user_id fr)"
  have "user_id fr \<notin> chatId ` set (filter (\<lambda>r. uc_userId r = userId \<and> chatType r = ''individual''
                                 \<and> chatId r \<in> set friendIds) (unreadCountTable env))"
    using none by auto
  from countMap_absent[OF this]
  show "unreadCount (entryOf env userId friendIds fr) = 0"
    by (simp add: entryOf_def friendWithData_def Let_def)
qed

lemma entryOf_other_lookup:
  assumes "user_id fr \<in> set friendIds" "user_id fr \<noteq> k"
    and "\<And>j. j \<noteq> k \<Longrightarrow> h userId j = Message_findOne env userId j"
  shows "entryOf (env\<lparr>Message_findOne := h\<rparr>) userId friendIds fr = entryOf env userId friendIds fr"
  using lastMessageMap_lookup[OF assms(1), of env userId]
    lastMessageMap_lookup[OF assms(1), of "env\<lparr>Message_findOne := h\<rparr>" userId] assms(2,3)
  by (simp add: entryOf_def friendWithData_def Let_def)

subsection \<open>Evaluation of the examples\<close>

lemmas example_defs = noContacts_def pendingRequest_def twoFriends_def ann_def bob_def cyd_def

lemma userRoom_1: "userRoom 1 = ''user_1''" "userRoom 2 = ''user_2''"
  by code_simp+

section \<open>Uniqueness of the row of a pair\<close>

text \<open>
  Claim C1 (invariant I1).  Start from a store whose \<open>Contact\<close> table has a primary key and
  holds at most one row for every pair of distinct users, in either direction.  After every
  prefix of every sequence of \<open>requestConnection\<close>, \<open>respondToRequest\<close>, \<open>cancelRequest\<close>,
  \<open>removeConnection\<close>, \<open>blockUser\<close> and \<open>unblockUser\<close> calls, with any callers and any
  arguments, the table still holds at most one row for every pair of distinct users.
\<close>

theorem pair_uniqueness_preserved:
  assumes "primaryKey st"
    and "\<forall>u v. u \<noteq> v \<longrightarrow> length (pairRows u v (contacts st)) \<le> 1"
  shows "\<forall>k u v. u \<noteq> v \<longrightarrow> length (pairRows u v (contacts (run st (take k ops)))) \<le> 1"
proof -
  have "storeInv st" using assms by (simp add: storeInv_def pairUnique_def)
  then have "storeInv (run st (take k ops))" for k by (rule storeInv_run)
  then show ?thesis by (simp add: storeInv_def pairUnique_def)
qed

theorem pair_uniqueness_preserved_witness:
  "primaryKey pendingRequest
   \<and> length (contacts pendingRequest) = 1
   \<and> length (pairRows 1 2 (contacts (run pendingRequest
        [BlockUser 2 1, UnblockUser 2 1, RequestConnection 1 2, RequestConnection 2 1]))) \<le> 1"
proof -
  have pk: "primaryKey pendingRequest" by (simp add: primaryKey_def pendingRequest_def)
  have one: "\<forall>u v. u \<noteq> v \<longrightarrow> length (pairRows u v (contacts pendingRequest)) \<le> 1"
    by (simp add: pairRows_def pendingRequest_def)
  from pair_uniqueness_preserved[OF pk one, where ops = "[BlockUser 2 1, UnblockUser 2 1, RequestConnection 1 2, RequestConnection 2 1]"]
  have "(1::int) \<noteq> 2 \<longrightarrow> length (pairRows 1 2 (contacts (run pendingRequest
        (take 4 [BlockUser 2 1, UnblockUser 2 1, RequestConnection 1 2, RequestConnection 2 1])))) \<le> 1"
    by blast
  then show ?thesis using pk by (simp add: pendingRequest_def)
qed

section \<open>Blocking\<close>

text \<open>
  Claim C2.  Let \<open>u\<close> and \<open>v\<close> be distinct, \<open>v\<close> an existing user, and let the store hold at
  most one row for the pair (none, or one of any status and direction).  Then
  \<open>blockUser(u, v)\<close> leaves exactly one row for the pair; that row is \<open>blocked\<close> with
  \<open>requesterId = u\<close> and \<open>addresseeId = v\<close> and is the \<open>contact\<close> of the response.  When no
  row existed the response is 201 and the row is appended to the table; when a row existed
  the response is 200 and the table keeps its row identifiers, the row being overwritten in
  place.
\<close>

theorem blockUser_result:
  assumes "primaryKey st"
    and "length (pairRows u v (contacts st)) \<le> 1"
    and "u \<noteq> v"
    and "User_findByPk st v \<noteq> None"
  shows "\<exists>resp st' evs r.
           blockUser st u v = (resp, st', evs)
         \<and> pairRows u v (contacts st') = [r]
         \<and> status r = Blocked \<and> requesterId r = u \<and> addresseeId r = v
         \<and> contactBody resp = Some r
         \<and> (if pairRows u v (contacts st) = []
            then httpStatus resp = 201 \<and> contacts st' = contacts st @ [r]
            else httpStatus resp = 200
               \<and> map contact_id (contacts st') = map contact_id (contacts st))"
  using blockUser_rows[OF assms] by blast

theorem blockUser_result_witness:
  "primaryKey pendingRequest \<and> length (pairRows 2 1 (contacts pendingRequest)) \<le> 1
   \<and> (2::int) \<noteq> 1 \<and> User_findByPk pendingRequest 1 \<noteq> None
   \<and> pairRows 2 1 (contacts pendingRequest) \<noteq> []
   \<and> (\<exists>resp st' evs r.
           blockUser pendingRequest 2 1 = (resp, st', evs)
         \<and> pairRows 2 1 (contacts st') = [r]
         \<and> status r = Blocked \<and> requesterId r = 2 \<and> addresseeId r = 1
         \<and> contactBody resp = Some r \<and> httpStatus resp = 200)"
proof -
  have pk: "primaryKey pendingRequest" by (simp add: primaryKey_def pendingRequest_def)
  have one: "length (pairRows 2 1 (contacts pendingRequest)) \<le> 1"
    by (simp add: pairRows_def pendingRequest_def)
  have neq: "(2::int) \<noteq> 1" by simp
  have ex: "User_findByPk pendingRequest 1 \<noteq> None"
    by (simp add: User_findByPk_def example_defs)
  have rows: "pairRows 2 1 (contacts pendingRequest) \<noteq> []"
    by (simp add: pairRows_def pendingRequest_def eitherDirection_def)
  from blockUser_result[OF pk one neq ex] rows
  have "\<exists>resp st' evs r.
           blockUser pendingRequest 2 1 = (resp, st', evs)
         \<and> pairRows 2 1 (contacts st') = [r]
         \<and> status r = Blocked \<and> requesterId r = 2 \<and> addresseeId r = 1
         \<and> contactBody resp = Some r \<and> httpStatus resp = 200"
    by auto
  then show ?thesis using pk one ex rows by simp
qed

text \<open>
  Claim C6.  The events of a \<open>blockUser(u, v)\<close> call: one \<open>youWereBlocked\<close> event to the
  room of \<open>v\<close>, carrying \<open>u\<close>, when the call passes its two checks (\<open>u \<noteq> v\<close>, \<open>v\<close> exists)
  and no row existed for the pair; no event at all otherwise.  So a call that passes the
  checks notifies the target exactly when it takes the branch that creates the row, and
  blocking over an existing row of any status emits nothing.
\<close>

theorem blockUser_notification:
  "snd (snd (blockUser st u v)) =
     (if u \<noteq> v \<and> User_findByPk st v \<noteq> None \<and> pairRows u v (contacts st) = []
      then [\<lparr>room = userRoom v, eventName = ''youWereBlocked'', payload = ByUser u\<rparr>]
      else [])"
  using find_None_pairRows[of u v "contacts st"]
  by (auto simp: blockUser_def Contact_findOne_def Contact_create_def Let_def
      split: option.splits)

theorem blockUser_notification_witness:
  "snd (snd (blockUser noContacts 1 2))
     = [\<lparr>room = ''user_2'', eventName = ''youWereBlocked'', payload = ByUser 1\<rparr>]
   \<and> snd (snd (blockUser pendingRequest 1 2)) = []
   \<and> snd (snd (blockUser twoFriends 2 1)) = []"
proof -
  have "User_findByPk noContacts 2 \<noteq> None" "pairRows 1 2 (contacts noContacts) = []"
    "pairRows 1 2 (contacts pendingRequest) \<noteq> []" "pairRows 2 1 (contacts twoFriends) \<noteq> []"
    by code_simp+
  then show ?thesis
    using blockUser_notification[of noContacts 1 2] blockUser_notification[of pendingRequest 1 2]
      blockUser_notification[of twoFriends 2 1] userRoom_1
    by simp
qed

text \<open>
  Claim C8.  Let \<open>u\<close> and \<open>v\<close> be distinct existing users and let the store hold at most one
  row for the pair.  Then \<open>blockUser(u, v)\<close> answers 200 or 201; \<open>unblockUser(u, v)\<close> on the
  resulting store answers 200 and leaves no row for the pair; and \<open>requestConnection(u, v)\<close>
  on that store answers 201 and leaves exactly one row for the pair, a \<open>pending\<close> one with
  \<open>requesterId = u\<close> and \<open>addresseeId = v\<close>.
\<close>

theorem block_unblock_request:
  assumes pk: "primaryKey st"
    and one: "length (pairRows u v (contacts st)) \<le> 1"
    and neq: "u \<noteq> v"
    and exu: "User_findByPk st u \<noteq> None"
    and exv: "User_findByPk st v \<noteq> None"
  shows "\<exists>r1 st1 e1 r2 st2 e2 r3 st3 e3 new.
           blockUser st u v = (r1, st1, e1) \<and> httpStatus r1 \<in> {200, 201}
         \<and> unblockUser st1 u v = (r2, st2, e2) \<and> httpStatus r2 = 200
         \<and> pairRows u v (contacts st2) = []
         \<and> sendFriendRequest st2 u v = (r3, st3, e3) \<and> httpStatus r3 = 201
         \<and> pairRows u v (contacts st3) = [new]
         \<and> status new = Pending \<and> requesterId new = u \<and> addresseeId new = v"
proof -
  obtain r1 st1 e1 r where b: "blockUser st u v = (r1, st1, e1)" "users st1 = users st"
      "pairRows u v (contacts st1) = [r]" "status r = Blocked" "requesterId r = u" "addresseeId r = v"
      and code: "httpStatus r1 \<in> {200, 201}"
    using blockUser_rows[OF pk one neq exv] by (auto split: if_splits)
  let ?st2 = "Contact_destroy st1 r"
  have ub: "unblockUser st1 u v = (reply 200 ''User unblocked successfully.'', ?st2,
            [\<lparr>room = userRoom v, eventName = ''youWereUnblocked'', payload = ByUser u\<rparr>])"
    by (rule unblockUser_single[OF b(3-6)])
  have empty: "pairRows u v (contacts ?st2) = []" by (rule pairRows_destroy_single[OF b(3)])
  have us: "users ?st2 = users st" using b(2) by (simp add: Contact_destroy_def)
  obtain sender where s: "User_findByPk ?st2 u = Some sender"
    using exu us by (auto simp: User_findByPk_def)
  have v2: "User_findByPk ?st2 v \<noteq> None" using exv us by (simp add: User_findByPk_def)
  note sf = sendFriendRequest_fresh[OF neq v2 s empty]
  show ?thesis
    using b(1) code ub empty sf
    by (simp add: Let_def reply_def replyWith_def pairRows_def eitherDirection_def)
qed

theorem block_unblock_request_witness:
  "primaryKey twoFriends \<and> length (pairRows 2 1 (contacts twoFriends)) \<le> 1 \<and> (2::int) \<noteq> 1
   \<and> User_findByPk twoFriends 2 \<noteq> None \<and> User_findByPk twoFriends 1 \<noteq> None
   \<and> (\<exists>r1 st1 e1 r2 st2 e2 r3 st3 e3 new.
           blockUser twoFriends 2 1 = (r1, st1, e1) \<and> httpStatus r1 \<in> {200, 201}
         \<and> unblockUser st1 2 1 = (r2, st2, e2) \<and> httpStatus r2 = 200
         \<and> pairRows 2 1 (contacts st2) = []
         \<and> sendFriendRequest st2 2 1 = (r3, st3, e3) \<and> httpStatus r3 = 201
         \<and> pairRows 2 1 (contacts st3) = [new]
         \<and> status new = Pending \<and> requesterId new = 2 \<and> addresseeId new = 1)"
proof -
  have pk: "primaryKey twoFriends" by code_simp
  have one: "length (pairRows 2 1 (contacts twoFriends)) \<le> 1" by code_simp
  have neq: "(2::int) \<noteq> 1" by simp
  have exu: "User_findByPk twoFriends 2 \<noteq> None" by code_simp
  have exv: "User_findByPk twoFriends 1 \<noteq> None" by code_simp
  from block_unblock_request[OF pk one neq exu exv] pk one exu exv
  show ?thesis by simp
qed

section \<open>Requesting a connection\<close>

text \<open>
  Claim C3.  The checks of \<open>requestConnection(u, v)\<close>, in the order the handler makes them.
  \<^item> \<open>u = v\<close>: the invalid-operation answer, status 400, nothing written or emitted.
  \<^item> \<open>v\<close> is not a user: the not-found answer, which this route sends with status 400 and
    the message that the user does not exist; nothing written or emitted.
  \<^item> a row exists for the pair, in either direction: the conflict answer, status 409, whose
    message says "already friends" when the row found is \<open>accepted\<close> and "request already
    exists" otherwise; nothing written or emitted.
  \<^item> a 201 answer: the table has gained one \<open>pending\<close> row with \<open>requesterId = u\<close> and
    \<open>addresseeId = v\<close>, which is the body of the response.
\<close>

theorem sendFriendRequest_checks:
  "(u = v \<longrightarrow>
      sendFriendRequest st u v =
        (reply 400 ''You cannot send a friend request to yourself'', st, []))
 \<and> (u \<noteq> v \<and> User_findByPk st v = None \<longrightarrow>
      sendFriendRequest st u v =
        (reply 400 ''The user you are trying to add does not exist'', st, []))
 \<and> (u \<noteq> v \<and> User_findByPk st v \<noteq> None \<and> pairRows u v (contacts st) \<noteq> [] \<longrightarrow>
      (\<exists>existing. Contact_findOne st (eitherDirection u v) = Some existing
         \<and> sendFriendRequest st u v =
             (reply 409 (if status existing = Accepted
                         then ''You are already friends with this user''
                         else ''A friend request already exists''), st, [])))
 \<and> (httpStatus (fst (sendFriendRequest st u v)) = 201 \<longrightarrow>
      (let created = \<lparr>contact_id = nextContactId st, requesterId = u, addresseeId = v,
                       status = Pending\<rparr>
       in contactBody (fst (sendFriendRequest st u v)) = Some created
        \<and> contacts (fst (snd (sendFriendRequest st u v))) = contacts st @ [created]))"
  using find_None_pairRows[of u v "contacts st"]
  by (auto simp: sendFriendRequest_def Contact_findOne_def Contact_create_def Let_def
      reply_def replyWith_def split: option.splits)

theorem sendFriendRequest_checks_witness:
  "sendFriendRequest noContacts 1 1
     = (reply 400 ''You cannot send a friend request to yourself'', noContacts, [])
   \<and> User_findByPk noContacts 9 = None
   \<and> sendFriendRequest noContacts 1 9
     = (reply 400 ''The user you are trying to add does not exist'', noContacts, [])
   \<and> User_findByPk pendingRequest 1 \<noteq> None \<and> pairRows 2 1 (contacts pendingRequest) \<noteq> []
   \<and> sendFriendRequest pendingRequest 2 1
     = (reply 409 ''A friend request already exists'', pendingRequest, [])
   \<and> sendFriendRequest twoFriends 2 1
     = (reply 409 ''You are already friends with this user'', twoFriends, [])
   \<and> httpStatus (fst (sendFriendRequest noContacts 1 2)) = 201
   \<and> contacts (fst (snd (sendFriendRequest noContacts 1 2)))
     = [\<lparr>contact_id = 100, requesterId = 1, addresseeId = 2, status = Pending\<rparr>]"
proof -
  have a: "User_findByPk noContacts 9 = None" by (simp add: User_findByPk_def example_defs)
  have b: "User_findByPk pendingRequest 1 \<noteq> None" "User_findByPk twoFriends 1 \<noteq> None"
    by (simp_all add: User_findByPk_def example_defs)
  have c: "pairRows 2 1 (contacts pendingRequest) \<noteq> []" "pairRows 2 1 (contacts twoFriends) \<noteq> []"
    by (simp_all add: pairRows_def example_defs eitherDirection_def)
  have d: "Contact_findOne pendingRequest (eitherDirection 2 1)
           = Some \<lparr>contact_id = 100, requesterId = 1, addresseeId = 2, status = Pending\<rparr>"
    "Contact_findOne twoFriends (eitherDirection 2 1)
           = Some \<lparr>contact_id = 100, requesterId = 1, addresseeId = 2, status = Accepted\<rparr>"
    by (simp_all add: Contact_findOne_def example_defs eitherDirection_def)
  have e: "httpStatus (fst (sendFriendRequest noContacts 1 2)) = 201"
    by (simp add: sendFriendRequest_def User_findByPk_def Contact_findOne_def Contact_create_def
        example_defs replyWith_def Let_def)
  have n: "contacts noContacts = []" "nextContactId noContacts = 100"
    by (simp_all add: noContacts_def)
  show ?thesis
    using sendFriendRequest_checks[of 1 1 noContacts] sendFriendRequest_checks[of 1 9 noContacts]
      sendFriendRequest_checks[of 2 1 pendingRequest] sendFriendRequest_checks[of 2 1 twoFriends]
      sendFriendRequest_checks[of 1 2 noContacts] a b c d e n
    by (simp add: Let_def)
qed

section \<open>Responding to a request\<close>

text \<open>
  Claim C10.  \<open>respondToRequest\<close> checks the action before it looks any row up: when the
  action is neither \<open>"accept"\<close> nor \<open>"decline"\<close> the answer is 400 with the invalid-action
  message, the store is unchanged and nothing is emitted, whatever the request identifier,
  the caller and the store are.  Hence such a call never answers 404, 403 or 409.
\<close>

theorem invalid_action_rejected_first:
  "action \<noteq> Some ''accept'' \<Longrightarrow> action \<noteq> Some ''decline'' \<Longrightarrow>
   updateFriendRequest st currentUserId requestId action
     = (reply 400 ''Invalid action. Must be 'accept' or 'decline'.'', st, [])"
  by (simp add: updateFriendRequest_def)

theorem invalid_action_rejected_first_witness:
  "Some ''maybe'' \<noteq> Some ''accept'' \<and> Some ''maybe'' \<noteq> Some ''decline''
   \<and> Contact_findByPk pendingRequest 100 \<noteq> None
   \<and> updateFriendRequest pendingRequest 2 100 (Some ''maybe'')
     = (reply 400 ''Invalid action. Must be 'accept' or 'decline'.'', pendingRequest, [])
   \<and> updateFriendRequest pendingRequest 2 7 None
     = (reply 400 ''Invalid action. Must be 'accept' or 'decline'.'', pendingRequest, [])"
proof -
  have a: "Some ''maybe'' \<noteq> Some ''accept''" "Some ''maybe'' \<noteq> Some ''decline''" by simp_all
  have b: "None \<noteq> Some ''accept''" "None \<noteq> Some ''decline''" by simp_all
  have c: "Contact_findByPk pendingRequest 100 \<noteq> None" by code_simp
  from invalid_action_rejected_first[OF a, of pendingRequest 2 100] invalid_action_rejected_first[OF b, of pendingRequest 2 7] a c
  show ?thesis by simp
qed

text \<open>
  Claim C5.  For any operation with response \<open>resp\<close> and events \<open>evs\<close>:
  \<^item> if it is \<open>respondToRequest(u, rid, "accept")\<close> and answers 200, then the row \<open>rid\<close>, the
    acceptor \<open>u\<close> and the requester of the row exist, and \<open>evs\<close> is exactly
    \<open>friendRequestAccepted\<close> to the requester's room carrying the acceptor's profile, followed
    by \<open>newFriendAdded\<close> to the acceptor's room carrying the requester's profile;
  \<^item> if more than one event is emitted, the operation is a \<open>respondToRequest\<close> with action
    \<open>"accept"\<close> that answers 200; every other operation emits at most one event.
\<close>

theorem accept_notifies_both:
  assumes "perform st op = (resp, st', evs)"
  shows "(op = RespondToRequest u rid (Some ''accept'') \<and> httpStatus resp = 200 \<longrightarrow>
            (\<exists>request acceptor sender.
               Contact_findByPk st rid = Some request
             \<and> User_findByPk st u = Some acceptor
             \<and> User_findByPk st (requesterId request) = Some sender
             \<and> evs = [\<lparr>room = userRoom (requesterId request),
                        eventName = ''friendRequestAccepted'',
                        payload = NewFriend (friendsWith (name acceptor)) acceptor\<rparr>,
                       \<lparr>room = userRoom u, eventName = ''newFriendAdded'',
                        payload = NewFriend (friendsWith (name sender)) sender\<rparr>]))
       \<and> (1 < length evs \<longrightarrow>
            (\<exists>actor requestId. op = RespondToRequest actor requestId (Some ''accept''))
            \<and> httpStatus resp = 200)"
proof (intro conjI impI)
  assume a: "op = RespondToRequest u rid (Some ''accept'') \<and> httpStatus resp = 200"
  then have "updateFriendRequest st u rid (Some ''accept'') = (resp, st', evs)"
    using assms by simp
  from accept_events[OF this] a
  show "\<exists>request acceptor sender.
               Contact_findByPk st rid = Some request
             \<and> User_findByPk st u = Some acceptor
             \<and> User_findByPk st (requesterId request) = Some sender
             \<and> evs = [\<lparr>room = userRoom (requesterId request),
                        eventName = ''friendRequestAccepted'',
                        payload = NewFriend (friendsWith (name acceptor)) acceptor\<rparr>,
                       \<lparr>room = userRoom u, eventName = ''newFriendAdded'',
                        payload = NewFriend (friendsWith (name sender)) sender\<rparr>]"
    by blast
next
  assume "1 < length evs"
  from many_events[OF assms this]
  show "\<exists>actor requestId. op = RespondToRequest actor requestId (Some ''accept'')" by blast
next
  assume "1 < length evs"
  from many_events[OF assms this] show "httpStatus resp = 200" by blast
qed

theorem accept_notifies_both_witness:
  "httpStatus (fst (perform pendingRequest (RespondToRequest 2 100 (Some ''accept'')))) = 200
   \<and> snd (snd (perform pendingRequest (RespondToRequest 2 100 (Some ''accept''))))
     = [\<lparr>room = ''user_1'', eventName = ''friendRequestAccepted'',
         payload = NewFriend ''You are now friends with bob'' bob\<rparr>,
        \<lparr>room = ''user_2'', eventName = ''newFriendAdded'',
         payload = NewFriend ''You are now friends with ann'' ann\<rparr>]"
proof -
  let ?op = "RespondToRequest 2 100 (Some ''accept'')"
  have ok: "httpStatus (fst (perform pendingRequest ?op)) = 200" by code_simp
  have eq: "perform pendingRequest ?op
            = (fst (perform pendingRequest ?op), fst (snd (perform pendingRequest ?op)),
               snd (snd (perform pendingRequest ?op)))"
    by simp
  have look: "Contact_findByPk pendingRequest 100
                = Some \<lparr>contact_id = 100, requesterId = 1, addresseeId = 2, status = Pending\<rparr>"
    "User_findByPk pendingRequest 2 = Some bob" "User_findByPk pendingRequest 1 = Some ann"
    "friendsWith (name bob) = ''You are now friends with bob''"
    "friendsWith (name ann) = ''You are now friends with ann''"
    by code_simp+
  from accept_notifies_both[OF eq, of 2 100] ok
  have "\<exists>request acceptor sender.
               Contact_findByPk pendingRequest 100 = Some request
             \<and> User_findByPk pendingRequest 2 = Some acceptor
             \<and> User_findByPk pendingRequest (requesterId request) = Some sender
             \<and> snd (snd (perform pendingRequest ?op))
                 = [\<lparr>room = userRoom (requesterId request),
                        eventName = ''friendRequestAccepted'',
                        payload = NewFriend (friendsWith (name acceptor)) acceptor\<rparr>,
                       \<lparr>room = userRoom 2, eventName = ''newFriendAdded'',
                        payload = NewFriend (friendsWith (name sender)) sender\<rparr>]"
    by blast
  then show ?thesis using ok look userRoom_1 by auto
qed

section \<open>Failed validation\<close>

text \<open>
  Claim C7.  When any of the six mutating operations answers with a validation or
  authorization status (400, 401, 403, 404 or 409), the store after the call is the store
  before it, and no event is emitted.
\<close>

theorem failed_validation_keeps_store:
  "perform st op = (resp, st', evs) \<Longrightarrow> httpStatus resp \<in> {400, 401, 403, 404, 409} \<Longrightarrow>
   st' = st \<and> evs = []"
  by (cases op)
     (auto simp: sendFriendRequest_def updateFriendRequest_def cancelRequest_def removeFriend_def
        blockUser_def unblockUser_def reply_def replyWith_def Let_def Contact_create_def
        split: if_splits option.splits prod.splits)

theorem failed_validation_keeps_store_witness:
  "httpStatus (fst (perform twoFriends (RequestConnection 1 2))) = 409
   \<and> fst (snd (perform twoFriends (RequestConnection 1 2))) = twoFriends
   \<and> snd (snd (perform twoFriends (RequestConnection 1 2))) = []"
proof -
  let ?op = "RequestConnection 1 2"
  have code: "httpStatus (fst (perform twoFriends ?op)) = 409" by code_simp
  have eq: "perform twoFriends ?op
            = (fst (perform twoFriends ?op), fst (snd (perform twoFriends ?op)),
               snd (snd (perform twoFriends ?op)))"
    by simp
  have "httpStatus (fst (perform twoFriends ?op)) \<in> {400, 401, 403, 404, 409}"
    using code by simp
  from failed_validation_keeps_store[OF eq this] code show ?thesis by simp
qed

section \<open>The friends aggregation\<close>

text \<open>
  Claim C4, as stated, says that only a failure of the primary relationship load fails the
  whole call.  In \<open>getFriends\<close> the batch load of the unread counters is awaited inside the
  same \<open>try\<close> block without a handler of its own: with the relationship load succeeding and
  the unread-counter load rejecting, the call answers 500.
\<close>

theorem getFriends_unread_load_counterexample:
  "\<not> Contact_findAll_rejects countersDown
   \<and> getFriends countersDown twoFriends 1 = Failure 500 ''Failed to fetch friends list.''"
  by (simp add: getFriends_def Contact_findAll_accepted_def UnreadCount_findAll_def
      countersDown_def lookupFails_def Let_def)

text \<open>
  Claim C4, amended.  \<open>getFriends\<close> answers 500 exactly when the relationship load or the
  batch load of the unread counters rejects.  Otherwise it answers with one entry per
  resolved friend, in order, and for every entry:
  \<^item> the last message is the result of that friend's lookup, and \<open>null\<close> when that lookup
    rejects; \<open>messages\<close> is empty then;
  \<^item> the unread count is 0 when no counter is stored for the caller and that friend;
  \<^item> replacing the last-message lookup by one that differs for a single friend \<open>k\<close> only
    leaves the answer a list of the same length in which every entry of a friend other than
    \<open>k\<close> is unchanged.
\<close>

theorem getFriends_partial_failure:
  "(getFriends env st userId = Failure 500 ''Failed to fetch friends list.''
      \<longleftrightarrow> Contact_findAll_rejects env \<or> UnreadCount_findAll_rejects env)
 \<and> (\<not> Contact_findAll_rejects env \<and> \<not> UnreadCount_findAll_rejects env \<longrightarrow>
     (\<exists>entries.
        getFriends env st userId = Friends entries
      \<and> map (user_id \<circ> friend) entries
          = map user_id (friendsListOf (acceptedWithUsers st userId) userId)
      \<and> (\<forall>e \<in> set entries.
            lastMessage e = (case Message_findOne env userId (user_id (friend e)) of
                               Rejected \<Rightarrow> None | Resolved found \<Rightarrow> found)
          \<and> messages e = (case lastMessage e of None \<Rightarrow> [] | Some m \<Rightarrow> [m])
          \<and> ((\<forall>r \<in> set (unreadCountTable env).
                 \<not> (uc_userId r = userId \<and> chatType r = ''individual''
                    \<and> chatId r = user_id (friend e)))
              \<longrightarrow> unreadCount e = 0))
      \<and> (\<forall>h k. (\<forall>j. j \<noteq> k \<longrightarrow> h userId j = Message_findOne env userId j) \<longrightarrow>
            (\<exists>entries'.
               getFriends (env\<lparr>Message_findOne := h\<rparr>) st userId = Friends entries'
             \<and> length entries' = length entries
             \<and> (\<forall>i < length entries.
                   user_id (friend (entries ! i)) \<noteq> k \<longrightarrow> entries' ! i = entries ! i)))))"
proof (intro conjI impI)
  show "getFriends env st userId = Failure 500 ''Failed to fetch friends list.''
      \<longleftrightarrow> Contact_findAll_rejects env \<or> UnreadCount_findAll_rejects env"
  proof (cases "Contact_findAll_rejects env \<or> UnreadCount_findAll_rejects env")
    case True
    then show ?thesis using getFriends_rejected[of env st userId] by simp
  next
    case False
    then have "\<exists>entries. getFriends env st userId = Friends entries"
      using getFriends_resolved[of env st userId] by simp
    then show ?thesis using False by auto
  qed
next
  assume ok: "\<not> Contact_findAll_rejects env \<and> \<not> UnreadCount_findAll_rejects env"
  let ?fl = "friendsListOf (acceptedWithUsers st userId) userId"
  let ?ids = "map user_id ?fl"
  let ?entries = "map (entryOf env userId ?ids) ?fl"
  have res: "getFriends env st userId = Friends ?entries"
    using ok by (simp add: getFriends_resolved)
  have ids: "map (user_id \<circ> friend) ?entries = ?ids"
    by (simp add: entryOf_fields(1))
  have each: "\<forall>e \<in> set ?entries.
            lastMessage e = (case Message_findOne env userId (user_id (friend e)) of
                               Rejected \<Rightarrow> None | Resolved found \<Rightarrow> found)
          \<and> messages e = (case lastMessage e of None \<Rightarrow> [] | Some m \<Rightarrow> [m])
          \<and> ((\<forall>r \<in> set (unreadCountTable env).
                 \<not> (uc_userId r = userId \<and> chatType r = ''individual''
                    \<and> chatId r = user_id (friend e)))
              \<longrightarrow> unreadCount e = 0)"
  proof
    fix e assume "e \<in> set ?entries"
    then obtain fr where fr: "fr \<in> set ?fl" "e = entryOf env userId ?ids fr" by auto
    then have mem: "user_id fr \<in> set ?ids" by simp
    show "lastMessage e = (case Message_findOne env userId (user_id (friend e)) of
                               Rejected \<Rightarrow> None | Resolved found \<Rightarrow> found)
          \<and> messages e = (case lastMessage e of None \<Rightarrow> [] | Some m \<Rightarrow> [m])
          \<and> ((\<forall>r \<in> set (unreadCountTable env).
                 \<not> (uc_userId r = userId \<and> chatType r = ''individual''
                    \<and> chatId r = user_id (friend e)))
              \<longrightarrow> unreadCount e = 0)"
      unfolding fr(2)
      using entryOf_fields(3)[OF mem, of env userId] entryOf_fields(4)[OF mem, of env userId]
        entryOf_fields(5)[OF mem, of env userId] entryOf_fields(1)[OF mem, of env userId]
      by simp
  qed
  have other: "\<forall>h k. (\<forall>j. j \<noteq> k \<longrightarrow> h userId j = Message_findOne env userId j) \<longrightarrow>
            (\<exists>entries'.
               getFriends (env\<lparr>Message_findOne := h\<rparr>) st userId = Friends entries'
             \<and> length entries' = length ?entries
             \<and> (\<forall>i < length ?entries.
                   user_id (friend (?entries ! i)) \<noteq> k \<longrightarrow> entries' ! i = ?entries ! i))"
  proof (intro allI impI)
    fix h k assume agree: "\<forall>j. j \<noteq> k \<longrightarrow> h userId j = Message_findOne env userId j"
    let ?env' = "env\<lparr>Message_findOne := h\<rparr>"
    let ?entries' = "map (entryOf ?env' userId ?ids) ?fl"
    have "getFriends ?env' st userId = Friends ?entries'"
      using ok by (simp add: getFriends_resolved)
    moreover have "length ?entries' = length ?entries" by simp
    moreover have "\<forall>i < length ?entries.
                   user_id (friend (?entries ! i)) \<noteq> k \<longrightarrow> ?entries' ! i = ?entries ! i"
    proof (intro allI impI)
      fix i assume i: "i < length ?entries" and nk: "user_id (friend (?entries ! i)) \<noteq> k"
      then have il: "i < length ?fl" by simp
      then have mem: "user_id (?fl ! i) \<in> set ?ids" by simp
      have "user_id (?fl ! i) \<noteq> k"
        using nk il entryOf_fields(1)[OF mem, of env userId] by simp
      from entryOf_other_lookup[OF mem this, of h userId env] agree il
      show "?entries' ! i = ?entries ! i" by simp
    qed
    ultimately show "\<exists>entries'.
               getFriends ?env' st userId = Friends entries'
             \<and> length entries' = length ?entries
             \<and> (\<forall>i < length ?entries.
                   user_id (friend (?entries ! i)) \<noteq> k \<longrightarrow> entries' ! i = ?entries ! i)"
      by blast
  qed
  from res ids each other
  show "\<exists>entries.
        getFriends env st userId = Friends entries
      \<and> map (user_id \<circ> friend) entries
          = map user_id (friendsListOf (acceptedWithUsers st userId) userId)
      \<and> (\<forall>e \<in> set entries.
            lastMessage e = (case Message_findOne env userId (user_id (friend e)) of
                               Rejected \<Rightarrow> None | Resolved found \<Rightarrow> found)
          \<and> messages e = (case lastMessage e of None \<Rightarrow> [] | Some m \<Rightarrow> [m])
          \<and> ((\<forall>r \<in> set (unreadCountTable env).
                 \<not> (uc_userId r = userId \<and> chatType r = ''individual''
                    \<and> chatId r = user_id (friend e)))
              \<longrightarrow> unreadCount e = 0))
      \<and> (\<forall>h k. (\<forall>j. j \<noteq> k \<longrightarrow> h userId j = Message_findOne env userId j) \<longrightarrow>
            (\<exists>entries'.
               getFriends (env\<lparr>Message_findOne := h\<rparr>) st userId = Friends entries'
             \<and> length entries' = length entries
             \<and> (\<forall>i < length entries.
                   user_id (friend (entries ! i)) \<noteq> k \<longrightarrow> entries' ! i = entries ! i)))"
    by blast
qed

theorem getFriends_partial_failure_witness:
  "\<not> Contact_findAll_rejects lookupFails \<and> \<not> UnreadCount_findAll_rejects lookupFails
   \<and> Message_findOne lookupFails 1 2 = Rejected
   \<and> (\<exists>entries.
        getFriends lookupFails twoFriends 1 = Friends entries
      \<and> map (user_id \<circ> friend) entries = [2, 3]
      \<and> map lastMessage entries = [None, Some ''hi'']
      \<and> map unreadCount entries = [4, 0])"
proof -
  have ok: "\<not> Contact_findAll_rejects lookupFails \<and> \<not> UnreadCount_findAll_rejects lookupFails"
    by (simp add: lookupFails_def)
  have fl: "friendsListOf (acceptedWithUsers twoFriends 1) 1 = [bob, cyd]"
    by (simp add: friendsListOf_def acceptedWithUsers_def getOtherUser_def User_findByPk_def
        example_defs)
  from getFriends_partial_failure[of lookupFails twoFriends 1] ok
  obtain entries where e: "getFriends lookupFails twoFriends 1 = Friends entries"
    "map (user_id \<circ> friend) entries = map user_id (friendsListOf (acceptedWithUsers twoFriends 1) 1)"
    "\<forall>e \<in> set entries.
            lastMessage e = (case Message_findOne lookupFails 1 (user_id (friend e)) of
                               Rejected \<Rightarrow> None | Resolved found \<Rightarrow> found)
          \<and> ((\<forall>r \<in> set (unreadCountTable lookupFails).
                 \<not> (uc_userId r = 1 \<and> chatType r = ''individual''
                    \<and> chatId r = user_id (friend e)))
              \<longrightarrow> unreadCount e = 0)"
    by blast
  have ids: "map (user_id \<circ> friend) entries = [2, 3]"
    using e(2) fl by (simp add: example_defs)
  then obtain e1 e2 where es: "entries = [e1, e2]" "user_id (friend e1) = 2" "user_id (friend e2) = 3"
    by auto
  have "lastMessage e1 = None" "lastMessage e2 = Some ''hi''" "unreadCount e2 = 0"
    using e(3) es by (simp_all add: lookupFails_def)
  moreover have "getFriends lookupFails twoFriends 1 =
      Friends [\<lparr>friend = bob\<lparr>img := Some ''https://placehold.co/50x50/695cfe/ffffff?text=B''\<rparr>,
                unreadCount = 4, messages = [], lastMessage = None\<rparr>,
               \<lparr>friend = cyd, unreadCount = 0, messages = [''hi''], lastMessage = Some ''hi''\<rparr>]"
    by code_simp
  then have "unreadCount e1 = 4" using e(1) es by simp
  ultimately show ?thesis using ok e(1) ids es by (simp add: lookupFails_def)
qed

text \<open>
  Claim C9.  The avatar of an entry is a function of the friend's stored avatar and display
  name alone.  When the stored avatar is \<open>null\<close> or empty, or contains both \<open>placehold.co\<close>
  and \<open>text=U\<close> (the placeholder of an unknown user), the result is the placeholder address
  ending in the first character of the name in upper case, or in \<open>U\<close> when the name is
  \<open>null\<close> or empty; otherwise it is the stored avatar.  Every entry \<open>getFriends\<close> returns
  carries the avatar so resolved.
\<close>

theorem resolveAvatar_rule:
  "resolveAvatar upper userImg nm =
     (if userImg = None \<or> userImg = Some []
         \<or> (\<exists>s a b c d. userImg = Some s \<and> s = a @ ''placehold.co'' @ b \<and> s = c @ ''text=U'' @ d)
      then ''https://placehold.co/50x50/695cfe/ffffff?text=''
             @ (case nm of Some (ch # rest) \<Rightarrow> upper ch | _ \<Rightarrow> ''U'')
      else the userImg)
   \<and> (\<forall>entries. getFriends env st userId = Friends entries \<longrightarrow>
         map (img \<circ> friend) entries
         = map (\<lambda>fr. Some (resolveAvatar (toUpperCase env) (img fr) (name fr)))
             (friendsListOf (acceptedWithUsers st userId) userId))"
proof
  have fl: "firstLetter upper nm = (case nm of Some (ch # rest) \<Rightarrow> upper ch | _ \<Rightarrow> ''U'')"
    by (simp add: firstLetter_def split: option.splits list.splits)
  show "resolveAvatar upper userImg nm =
     (if userImg = None \<or> userImg = Some []
         \<or> (\<exists>s a b c d. userImg = Some s \<and> s = a @ ''placehold.co'' @ b \<and> s = c @ ''text=U'' @ d)
      then ''https://placehold.co/50x50/695cfe/ffffff?text=''
             @ (case nm of Some (ch # rest) \<Rightarrow> upper ch | _ \<Rightarrow> ''U'')
      else the userImg)"
  proof (cases userImg)
    case None
    then show ?thesis by (simp add: resolveAvatar_def truthy_def placeholder_def fl)
  next
    case (Some s)
    have "(\<exists>s' a b c d. Some s = Some s' \<and> s' = a @ ''placehold.co'' @ b \<and> s' = c @ ''text=U'' @ d)
          \<longleftrightarrow> includes_str s ''placehold.co'' \<and> includes_str s ''text=U''"
      unfolding includes_iff by auto
    then show ?thesis using Some
      by (auto simp: resolveAvatar_def truthy_def placeholder_def fl simp del: includes_str.simps)
  qed
next
  show "\<forall>entries. getFriends env st userId = Friends entries \<longrightarrow>
         map (img \<circ> friend) entries
         = map (\<lambda>fr. Some (resolveAvatar (toUpperCase env) (img fr) (name fr)))
             (friendsListOf (acceptedWithUsers st userId) userId)"
    by (auto simp: getFriends_def Contact_findAll_accepted_def UnreadCount_findAll_def Let_def
        friendWithData_def split: if_splits)
qed

theorem resolveAvatar_rule_witness:
  "resolveAvatar asciiUpper (img bob) (name bob) = ''https://placehold.co/50x50/695cfe/ffffff?text=B''
   \<and> resolveAvatar asciiUpper (img ann) (name ann) = ''https://placehold.co/50x50/695cfe/ffffff?text=A''
   \<and> resolveAvatar asciiUpper None (name cyd) = ''https://placehold.co/50x50/695cfe/ffffff?text=U''
   \<and> resolveAvatar asciiUpper (img cyd) (name cyd) = ''https://cdn.example.org/cyd.png''
   \<and> (\<exists>entries. getFriends lookupFails twoFriends 1 = Friends entries
        \<and> map (img \<circ> friend) entries
          = [Some ''https://placehold.co/50x50/695cfe/ffffff?text=B'',
             Some ''https://cdn.example.org/cyd.png''])"
proof -
  have up: "asciiUpper CHR ''b'' = ''B''" "asciiUpper CHR ''a'' = ''A''" by code_simp+
  have pat: "\<exists>s a b c d. img bob = Some s \<and> s = a @ ''placehold.co'' @ b \<and> s = c @ ''text=U'' @ d"
  proof -
    have "img bob = Some ''https://placehold.co/50x50/695cfe/ffffff?text=U''"
      by (simp add: bob_def)
    moreover have "''https://placehold.co/50x50/695cfe/ffffff?text=U''
        = ''https://'' @ ''placehold.co'' @ ''/50x50/695cfe/ffffff?text=U''" by simp
    moreover have "''https://placehold.co/50x50/695cfe/ffffff?text=U''
        = ''https://placehold.co/50x50/695cfe/ffffff?'' @ ''text=U'' @ ''''" by simp
    ultimately show ?thesis by blast
  qed
  have nopat: "\<not> (\<exists>s a b c d. img cyd = Some s \<and> s = a @ ''placehold.co'' @ b \<and> s = c @ ''text=U'' @ d)"
  proof -
    have "\<not> includes_str ''https://cdn.example.org/cyd.png'' ''placehold.co''" by code_simp
    then show ?thesis unfolding includes_iff by (auto simp: cyd_def)
  qed
  have r1: "resolveAvatar asciiUpper (img bob) (name bob) = ''https://placehold.co/50x50/695cfe/ffffff?text=B''"
    using resolveAvatar_rule[of asciiUpper "img bob" "name bob" lookupFails twoFriends 1, THEN conjunct1] pat up by (simp add: bob_def)
  have r2: "resolveAvatar asciiUpper (img ann) (name ann) = ''https://placehold.co/50x50/695cfe/ffffff?text=A''"
    using resolveAvatar_rule[of asciiUpper "img ann" "name ann" lookupFails twoFriends 1, THEN conjunct1] up by (simp add: ann_def)
  have r3: "resolveAvatar asciiUpper None (name cyd) = ''https://placehold.co/50x50/695cfe/ffffff?text=U''"
    using resolveAvatar_rule[of asciiUpper None "name cyd" lookupFails twoFriends 1, THEN conjunct1] by (simp add: cyd_def)
  have r4: "resolveAvatar asciiUpper (img cyd) (name cyd) = ''https://cdn.example.org/cyd.png''"
    using resolveAvatar_rule[of asciiUpper "img cyd" "name cyd" lookupFails twoFriends 1, THEN conjunct1] nopat by (simp add: cyd_def)
  have fl: "friendsListOf (acceptedWithUsers twoFriends 1) 1 = [bob, cyd]" by code_simp
  have ok: "\<exists>entries. getFriends lookupFails twoFriends 1 = Friends entries"
    by (simp add: getFriends_def Contact_findAll_accepted_def UnreadCount_findAll_def Let_def
        lookupFails_def)
  then obtain entries where e: "getFriends lookupFails twoFriends 1 = Friends entries" by blast
  have up': "toUpperCase lookupFails = asciiUpper" by (simp add: lookupFails_def)
  from resolveAvatar_rule[of asciiUpper None None lookupFails twoFriends 1, THEN conjunct2] e
  have "map (img \<circ> friend) entries
         = map (\<lambda>fr. Some (resolveAvatar (toUpperCase lookupFails) (img fr) (name fr)))
             (friendsListOf (acceptedWithUsers twoFriends 1) 1)"
    by blast
  then have "map (img \<circ> friend) entries
          = [Some ''https://placehold.co/50x50/695cfe/ffffff?text=B'',
             Some ''https://cdn.example.org/cyd.png'']"
    using fl up' r1 r4 by simp
  then show ?thesis using r1 r2 r3 r4 e by simp
qed

end
